theory Spec2Isabelle
  imports Main "HOL-Library.Sublist"
begin

section \<open>Error values\<close>

text \<open>
  Go error values as the program builds and inspects them. The sentinels are the package
  level variables the source compares against (\<^verbatim>\<open>io.EOF\<close>, \<^verbatim>\<open>os.ErrClosed\<close>,
  \<^verbatim>\<open>net.ErrClosed\<close>, \<^verbatim>\<open>errEnvMissing\<close>, \<^verbatim>\<open>errUnexpectedSocketAmount\<close>).
  \<open>Foreign\<close> is any other leaf error of the environment, known by its message only.
  \<open>Wrapf p e s\<close> is an error that wraps \<open>e\<close> and prints as \<open>p\<close>, the message of \<open>e\<close>,
  \<open>s\<close>: the value of \<^verbatim>\<open>fmt.Errorf\<close> with one \<^verbatim>\<open>%w\<close> verb, and also how the
  environment's own wrapping errors (\<^verbatim>\<open>*net.OpError\<close>) are written. \<open>Errorf m\<close> is the
  value of \<^verbatim>\<open>fmt.Errorf\<close> with no \<^verbatim>\<open>%w\<close> verb: a message and nothing to unwrap.
\<close>

datatype err =
    IoEOF
  | OsErrClosed
  | NetErrClosed
  | ErrEnvMissing
  | ErrUnexpectedSocketAmount
  | Foreign string
  | Errorf string
  | Wrapf string err string

text \<open>The method \<^verbatim>\<open>Error()\<close>: the message of an error.\<close>

fun Error :: "err \<Rightarrow> string" where
  "Error IoEOF = ''EOF''"
| "Error OsErrClosed = ''file already closed''"
| "Error NetErrClosed = ''use of closed network connection''"
| "Error ErrEnvMissing = ''environment variable is not set''"
| "Error ErrUnexpectedSocketAmount = ''systemd passed unexpected number of sockets''"
| "Error (Foreign m) = m"
| "Error (Errorf m) = m"
| "Error (Wrapf p e s) = p @ Error e @ s"

text \<open>
  \<^verbatim>\<open>errors.Is(err, target)\<close>: \<open>err\<close> or an error it wraps, at any depth, is the target.
  The program only ever passes a sentinel as the target.
\<close>

fun errors_Is :: "err \<Rightarrow> err \<Rightarrow> bool" where
  "errors_Is (Wrapf p e s) target = (Wrapf p e s = target \<or> errors_Is e target)"
| "errors_Is e target = (e = target)"

text \<open>
  The verb \<^verbatim>\<open>%v\<close> applied to a slice of errors: the messages of the elements, separated
  by one space, between square brackets.
\<close>

fun join_space :: "string list \<Rightarrow> string" where
  "join_space [] = []"
| "join_space [m] = m"
| "join_space (m # ms) = m @ '' '' @ join_space ms"

definition fmt_v_errs :: "err list \<Rightarrow> string" where
  "fmt_v_errs es = ''['' @ join_space (map Error es) @ '']''"

section \<open>The environment\<close>

text \<open>
  Streams, connections and listeners are references; the model names them by numbers.
  What the operating system, the network and the service manager answer is not decided by
  the program, so it is a parameter of the model: one \<open>world\<close> fixes the answer of every
  call the program makes to its collaborators.

  \<^item> \<open>LookupEnv\<close>: \<^verbatim>\<open>os.LookupEnv\<close>; \<open>None\<close> when the variable is unset.
  \<^item> \<open>Listeners\<close>: \<^verbatim>\<open>activation.Listeners()\<close>; \<open>Inl\<close> when it returns an error (the
    program then does not look at the slice), \<open>Inr\<close> with the sockets passed in otherwise.
  \<^item> \<open>fmt_listeners\<close>: how \<^verbatim>\<open>%v\<close> prints a slice of listeners.
  \<^item> \<open>Accept\<close>: the answers of the successive calls of \<^verbatim>\<open>Accept\<close> on a listener; when
    the list is used up the next call blocks for ever.
  \<^item> \<open>CloseListener\<close>: the answer of \<^verbatim>\<open>Close\<close> on a listener.
  \<^item> \<open>Dial\<close>: the answer of \<^verbatim>\<open>DialContext\<close> for a network, an address and the accepted
    connection on whose behalf the dial is made.
  \<^item> \<open>io_Copy\<close>: the error \<^verbatim>\<open>io.Copy(dst, src)\<close> ends with (\<open>None\<close> is \<^verbatim>\<open>nil\<close>, which is
    also what \<^verbatim>\<open>io.Copy\<close> gives when the source reaches its end).
  \<^item> \<open>Close\<close>: the answer of \<^verbatim>\<open>Close\<close> on a stream.
  \<^item> \<open>aggregate\<close>: the error \<^verbatim>\<open>Wait\<close> of the task group library hands back for the
    errors its tasks returned.
\<close>

type_synonym stream = nat
type_synonym listener = nat

record world =
  LookupEnv :: "string \<Rightarrow> string option"
  Listeners :: "err + listener list"
  fmt_listeners :: "listener list \<Rightarrow> string"
  Accept :: "listener \<Rightarrow> (err + stream) list"
  CloseListener :: "listener \<Rightarrow> err option"
  Dial :: "string \<Rightarrow> string \<Rightarrow> stream \<Rightarrow> err + stream"
  io_Copy :: "stream \<Rightarrow> stream \<Rightarrow> err option"
  Close :: "stream \<Rightarrow> err option"
  aggregate :: "err list \<Rightarrow> err"

text \<open>
  What the program does to its collaborators, in the order one task does it. Events of
  different tasks of one group are concurrent in the program; a trace lists them task
  after task, in the order the tasks are started.
\<close>

datatype event =
    EvLookupEnv string
  | EvListeners
  | EvAccept
  | EvGo stream
  | EvDial string string
  | EvCopy stream stream
  | EvClose stream
  | EvCloseListener listener
  | EvLog string err

text \<open>How a call ends: it returns, it panics, or it blocks for ever.\<close>

datatype 'a exec = Done 'a | Panicked string | Blocked

section \<open>The task group library\<close>

text \<open>
  The library \<^verbatim>\<open>rungroup\<close> is a dependency of the program. Its contract as the program
  uses it: \<^verbatim>\<open>Wait\<close> returns once every task of the group has returned, and reports the
  errors of the tasks that returned one. The older interface hands back the slice of these
  errors, in the order the tasks finished; \<open>finish\<close> lists the tasks (numbered as started) in
  that order. The newer interface hands back one error, \<^verbatim>\<open>nil\<close> when no task failed.
  The context a group gives its tasks is done when the context the group was made from is
  cancelled, and when a task of the group has returned (unless the task was started with
  \<^verbatim>\<open>NoCancelOnSuccess\<close> and returned \<^verbatim>\<open>nil\<close>); a task that waits for it runs on from
  there.

  The model describes the runs of the program by what each task does and returns. It does
  not describe how the tasks of a group interleave, nor when a \<^verbatim>\<open>Close\<close> in one task
  unblocks a call in another: properties that hold for every interleaving are not
  expressed in it.
\<close>

fun task_errs :: "err option list \<Rightarrow> err list" where
  "task_errs [] = []"
| "task_errs (None # rs) = task_errs rs"
| "task_errs (Some e # rs) = e # task_errs rs"

definition group_errs :: "nat list \<Rightarrow> err option list \<Rightarrow> err list" where
  "group_errs finish results =
     task_errs (map (\<lambda>i. if i < length results then results ! i else None) finish)"

definition completion_order :: "nat \<Rightarrow> nat list \<Rightarrow> bool" where
  "completion_order n finish = (distinct finish \<and> set finish = {..<n})"

definition group_Wait :: "world \<Rightarrow> err option list \<Rightarrow> err option" where
  "group_Wait w results =
     (case task_errs results of
        [] \<Rightarrow> None
      | e # es \<Rightarrow> Some (aggregate w (e # es)))"

section \<open>The library level bridge\<close>

text \<open>
  \<^verbatim>\<open>copyStream(dst, src)\<close>: \<^verbatim>\<open>nil\<close> when \<^verbatim>\<open>io.Copy\<close> ends with \<^verbatim>\<open>nil\<close>,
  \<^verbatim>\<open>os.ErrClosed\<close> or \<^verbatim>\<open>net.ErrClosed\<close>; any other error is returned, wrapped.
\<close>

definition copyStream :: "world \<Rightarrow> stream \<Rightarrow> stream \<Rightarrow> err option" where
  "copyStream w dst src =
     (case io_Copy w dst src of
        None \<Rightarrow> None
      | Some e \<Rightarrow>
          if errors_Is e OsErrClosed \<or> errors_Is e NetErrClosed then None
          else Some (Wrapf ''io.Copy failed: '' e ''''))"

text \<open>The loop of \<^verbatim>\<open>closeAfterDone\<close>: close every closer in turn, keep the errors.\<close>

fun close_all :: "world \<Rightarrow> stream list \<Rightarrow> err list" where
  "close_all w [] = []"
| "close_all w (c # cs) =
     (case Close w c of None \<Rightarrow> close_all w cs | Some e \<Rightarrow> e # close_all w cs)"

text \<open>
  \<^verbatim>\<open>closeAfterDone(ctx, closers...)\<close>, once the context is done: no error gives \<^verbatim>\<open>nil\<close>,
  one error is returned as it is, several are printed into one new error.
\<close>

definition closeAfterDone :: "world \<Rightarrow> stream list \<Rightarrow> err option" where
  "closeAfterDone w closers =
     (case close_all w closers of
        [] \<Rightarrow> None
      | [e] \<Rightarrow> Some e
      | e # e' # es \<Rightarrow>
          Some (Errorf (''multiple errors while closing closers: '' @ fmt_v_errs (e # e' # es))))"

text \<open>
  \<^verbatim>\<open>BridgeStreams(ctx, a, b)\<close>: three tasks, then the same choice on the errors the group
  reports.
\<close>

definition BridgeStreams_tasks :: "world \<Rightarrow> stream \<Rightarrow> stream \<Rightarrow> err option list" where
  "BridgeStreams_tasks w a b = [copyStream w a b, copyStream w b a, closeAfterDone w [a, b]]"

definition BridgeStreams :: "world \<Rightarrow> nat list \<Rightarrow> stream \<Rightarrow> stream \<Rightarrow> err option" where
  "BridgeStreams w finish a b =
     (case group_errs finish (BridgeStreams_tasks w a b) of
        [] \<Rightarrow> None
      | [e] \<Rightarrow> Some e
      | e # e' # es \<Rightarrow>
          Some (Errorf (''multiple errors while bridging streams: '' @ fmt_v_errs (e # e' # es))))"

section \<open>The service\<close>

definition ToAddrEnvName :: string where
  "ToAddrEnvName = ''TCPV4TO6_DESTINATION_ADDR''"

text \<open>
  The four tasks of \<^verbatim>\<open>bridgeStreams\<close>. A copier runs \<^verbatim>\<open>io.Copy\<close> and logs the error
  unless it is \<^verbatim>\<open>nil\<close> or \<^verbatim>\<open>net.ErrClosed\<close>; a close watcher closes its stream once the
  context is done and logs the error under the same test. Each returns \<^verbatim>\<open>nil\<close> to the
  group. The result is the error handed to the group and the events of the task.
\<close>

definition bridge_copier :: "world \<Rightarrow> string \<Rightarrow> stream \<Rightarrow> stream \<Rightarrow> err option \<times> event list" where
  "bridge_copier w msg dst src =
     (None,
      EvCopy dst src #
        (case io_Copy w dst src of
           None \<Rightarrow> []
         | Some e \<Rightarrow> if \<not> errors_Is e NetErrClosed then [EvLog msg e] else []))"

definition bridge_closer :: "world \<Rightarrow> string \<Rightarrow> stream \<Rightarrow> err option \<times> event list" where
  "bridge_closer w msg s =
     (None,
      EvClose s #
        (case Close w s of
           None \<Rightarrow> []
         | Some e \<Rightarrow> if \<not> errors_Is e NetErrClosed then [EvLog msg e] else []))"

definition bridgeStreams_tasks :: "world \<Rightarrow> stream \<Rightarrow> stream \<Rightarrow> (err option \<times> event list) list" where
  "bridgeStreams_tasks w to from =
     [bridge_copier w ''copy from->to failed'' to from,
      bridge_copier w ''copy from<-to failed'' from to,
      bridge_closer w ''could not close from stream'' to,
      bridge_closer w ''could not close to stream'' from]"

text \<open>
  \<^verbatim>\<open>bridgeStreams(ctx, log, to, from)\<close>: the four tasks, then \<^verbatim>\<open>Wait\<close>; an error of the
  group is answered with a panic.
\<close>

definition bridgeStreams :: "world \<Rightarrow> stream \<Rightarrow> stream \<Rightarrow> unit exec \<times> event list" where
  "bridgeStreams w to from =
     (let tasks = bridgeStreams_tasks w to from in
      (case group_Wait w (map fst tasks) of
         None \<Rightarrow> Done ()
       | Some e \<Rightarrow> Panicked ''did not expect errors'',
       concat (map snd tasks)))"

text \<open>
  \<^verbatim>\<open>handleConn(ctx, log, from, dstAddr)\<close>: one dial on the network \<^verbatim>\<open>tcp6\<close>; when it
  fails the error is logged and the accepted connection closed, otherwise the two
  connections are bridged.
\<close>

definition handleConn :: "world \<Rightarrow> stream \<Rightarrow> string \<Rightarrow> unit exec \<times> event list" where
  "handleConn w from dstAddr =
     (case Dial w ''tcp6'' dstAddr from of
        Inl e \<Rightarrow>
          (Done (),
           [EvDial ''tcp6'' dstAddr,
            EvLog ''couldn't connect to dstAddr. closing accepted connection'' e,
            EvClose from] @
           (case Close w from of
              None \<Rightarrow> []
            | Some e' \<Rightarrow> [EvLog ''couldn't close accepted connection'' e']))
      | Inr to \<Rightarrow>
          (case bridgeStreams w to from of
             (r, tr) \<Rightarrow> (r, EvDial ''tcp6'' dstAddr # tr)))"

text \<open>
  The task \<^verbatim>\<open>handleListener\<close> hands to the group for an accepted connection: it calls
  \<^verbatim>\<open>handleConn\<close> and returns \<^verbatim>\<open>nil\<close>.
\<close>

definition handler_task :: "world \<Rightarrow> string \<Rightarrow> stream \<Rightarrow> err option exec \<times> event list" where
  "handler_task w toAddr from =
     (case handleConn w from toAddr of
        (Done u, tr) \<Rightarrow> (Done None, tr)
      | (Panicked m, tr) \<Rightarrow> (Panicked m, tr)
      | (Blocked, tr) \<Rightarrow> (Blocked, tr))"

text \<open>
  The loop of \<^verbatim>\<open>handleListener\<close> over the answers of \<^verbatim>\<open>Accept\<close>. The result is how the
  loop ends, the events of the loop itself, and the tasks it handed to the group, in order.
\<close>

fun accept_loop ::
  "world \<Rightarrow> string \<Rightarrow> (err + stream) list \<Rightarrow>
     err option exec \<times> event list \<times> (err option exec \<times> event list) list" where
  "accept_loop w toAddr [] = (Blocked, [EvAccept], [])"
| "accept_loop w toAddr (Inl e # rest) =
     (if errors_Is e NetErrClosed then (Done None, [EvAccept], [])
      else (Done (Some (Wrapf ''failed to accept new connection: '' e '''')), [EvAccept], []))"
| "accept_loop w toAddr (Inr from # rest) =
     (case accept_loop w toAddr rest of
        (r, tr, tasks) \<Rightarrow>
          (r, EvAccept # EvGo from # tr, handler_task w toAddr from # tasks))"

definition handleListener ::
  "world \<Rightarrow> string \<Rightarrow> listener \<Rightarrow>
     err option exec \<times> event list \<times> (err option exec \<times> event list) list" where
  "handleListener w toAddr l = accept_loop w toAddr (Accept w l)"

text \<open>
  Joining the tasks of a group: every task has to return before \<^verbatim>\<open>Wait\<close> does; a
  panic in any task ends the process.
\<close>

fun join_tasks :: "(err option exec \<times> event list) list \<Rightarrow> err option list exec" where
  "join_tasks [] = Done []"
| "join_tasks ((r, tr) # ts) =
     (case join_tasks ts of
        Panicked m \<Rightarrow> (case r of Panicked m' \<Rightarrow> Panicked m' | _ \<Rightarrow> Panicked m)
      | Blocked \<Rightarrow> (case r of Panicked m' \<Rightarrow> Panicked m' | _ \<Rightarrow> Blocked)
      | Done xs \<Rightarrow>
          (case r of Done x \<Rightarrow> Done (x # xs) | Panicked m' \<Rightarrow> Panicked m' | Blocked \<Rightarrow> Blocked))"

text \<open>
  The task of \<^verbatim>\<open>Run\<close> that closes the listener once the context of the group is done.
  The context is done when it is cancelled from outside or when the accept loop has
  returned; while the accept loop blocks for ever, in this model, it never is.
\<close>

definition listener_closer ::
  "world \<Rightarrow> listener \<Rightarrow> err option exec \<Rightarrow> err option exec \<times> event list" where
  "listener_closer w listener accepting =
     (if accepting = Blocked then (Blocked, [])
      else
        (case CloseListener w listener of
           None \<Rightarrow> (Done None, [EvCloseListener listener])
         | Some e \<Rightarrow>
             (Done (Some (Wrapf ''could not close listener: '' e '''')),
              [EvCloseListener listener])))"

text \<open>The second half of \<^verbatim>\<open>Run\<close>: the group with the accept loop and the closer.\<close>

definition Run_group :: "world \<Rightarrow> string \<Rightarrow> listener \<Rightarrow> err option exec \<times> event list" where
  "Run_group w toAddr listener =
     (case handleListener w toAddr listener of
        (r, tr, handlers) \<Rightarrow>
          (let closer = listener_closer w listener r in
           (case join_tasks ((r, tr) # closer # handlers) of
              Done results \<Rightarrow>
                (case group_Wait w results of
                   None \<Rightarrow> Done None
                 | Some e \<Rightarrow> Done (Some (Wrapf ''listening group failed: '' e '''')))
            | Panicked m \<Rightarrow> Panicked m
            | Blocked \<Rightarrow> Blocked,
            tr @ snd closer @ concat (map snd handlers))))"

text \<open>
  \<^verbatim>\<open>Run(ctx, log)\<close>: the destination from the environment, the listener from the service
  manager, then the group.
\<close>

definition Run :: "world \<Rightarrow> err option exec \<times> event list" where
  "Run w =
     (case LookupEnv w ToAddrEnvName of
        None \<Rightarrow>
          (Done (Some (Wrapf '''' ErrEnvMissing ('': '' @ ToAddrEnvName))),
           [EvLookupEnv ToAddrEnvName])
      | Some toAddr \<Rightarrow>
          (case Listeners w of
             Inl e \<Rightarrow>
               (Done (Some (Wrapf ''could not get systemd sockets: '' e '''')),
                [EvLookupEnv ToAddrEnvName, EvListeners])
           | Inr listeners \<Rightarrow>
               if length listeners \<noteq> 1 then
                 (Done (Some (Wrapf '''' ErrUnexpectedSocketAmount
                                ('': '' @ fmt_listeners w listeners))),
                  [EvLookupEnv ToAddrEnvName, EvListeners])
               else
                 (case Run_group w toAddr (listeners ! 0) of
                    (r, tr) \<Rightarrow> (r, EvLookupEnv ToAddrEnvName # EvListeners # tr))))"

section \<open>Predicates and sample environments\<close>

text \<open>
  The first case of the \<^verbatim>\<open>switch\<close> in \<^verbatim>\<open>copyStream\<close>: the results of \<^verbatim>\<open>io.Copy\<close>
  that it answers with \<^verbatim>\<open>nil\<close>.
\<close>

definition benign_copyStream :: "err option \<Rightarrow> bool" where
  "benign_copyStream r =
     (case r of None \<Rightarrow> True | Some e \<Rightarrow> errors_Is e OsErrClosed \<or> errors_Is e NetErrClosed)"

text \<open>
  The results the tasks of \<^verbatim>\<open>bridgeStreams\<close> do not log: the negation of their test
  \<^verbatim>\<open>err != nil && !errors.Is(err, net.ErrClosed)\<close>.
\<close>

definition benign_bridgeStreams :: "err option \<Rightarrow> bool" where
  "benign_bridgeStreams r = (case r of None \<Rightarrow> True | Some e \<Rightarrow> errors_Is e NetErrClosed)"

fun is_dial :: "event \<Rightarrow> bool" where
  "is_dial (EvDial network address) = True"
| "is_dial ev = False"

fun is_copy :: "event \<Rightarrow> bool" where
  "is_copy (EvCopy dst src) = True"
| "is_copy ev = False"

text \<open>
  Environments to run the model on. In \<open>world_quiet\<close> the variable is set, one
  socket (number 3) is passed in, two clients (10 and 20) connect before the listener is
  closed, every dial on \<^verbatim>\<open>tcp6\<close> succeeds and nothing else fails. The others differ from
  it in the one answer their name says.
\<close>

definition world_quiet :: world where
  "world_quiet =
     \<lparr> LookupEnv = (\<lambda>name. if name = ToAddrEnvName then Some ''[::1]:8080'' else None),
       Listeners = Inr [3],
       fmt_listeners = (\<lambda>ls. ''[]''),
       Accept = (\<lambda>l. [Inr 10, Inr 20, Inl (Wrapf ''accept tcp [::]:80: '' NetErrClosed '''')]),
       CloseListener = (\<lambda>l. None),
       Dial = (\<lambda>network address from.
                 if network = ''tcp6'' then Inr (from + 1) else Inl (Foreign ''unknown network'')),
       io_Copy = (\<lambda>dst src. None),
       Close = (\<lambda>s. None),
       aggregate = (\<lambda>es. Errorf (fmt_v_errs es)) \<rparr>"

definition world_file_closed :: world where
  "world_file_closed = world_quiet \<lparr> io_Copy := (\<lambda>dst src. Some OsErrClosed) \<rparr>"

definition world_net_closed :: world where
  "world_net_closed =
     world_quiet \<lparr> io_Copy := (\<lambda>dst src. Some (Wrapf ''read tcp: '' NetErrClosed '''')) \<rparr>"

definition world_close_fails :: world where
  "world_close_fails =
     world_quiet \<lparr> Close := (\<lambda>s. if s = 0 then Some (Foreign ''EIO'') else Some (Foreign ''EBADF'')),
                   io_Copy := (\<lambda>dst src. Some (Foreign ''connection reset by peer'')) \<rparr>"

definition world_listener_close_fails :: world where
  "world_listener_close_fails =
     world_quiet \<lparr> Accept := (\<lambda>l. [Inl (Wrapf ''accept tcp [::]:80: '' NetErrClosed '''')]),
                   CloseListener := (\<lambda>l. Some (Foreign ''input/output error'')) \<rparr>"

definition world_accept_fails :: world where
  "world_accept_fails =
     world_quiet \<lparr> Accept := (\<lambda>l. [Inr 10, Inl (Foreign ''too many open files'')]) \<rparr>"

definition world_no_env :: world where
  "world_no_env = world_quiet \<lparr> LookupEnv := (\<lambda>name. None), Listeners := Inr [] \<rparr>"

definition world_no_sockets :: world where
  "world_no_sockets = world_quiet \<lparr> Listeners := Inr [] \<rparr>"

definition world_two_sockets :: world where
  "world_two_sockets = world_quiet \<lparr> Listeners := Inr [3, 4] \<rparr>"

definition world_v4_only :: world where
  "world_v4_only =
     world_quiet \<lparr> Dial := (\<lambda>network address from.
                              if network = ''tcp4'' then Inr (from + 1)
                              else Inl (Foreign ''no suitable address found'')) \<rparr>"

section \<open>Auxiliary facts\<close>

lemmas world_defs =
  world_quiet_def world_file_closed_def world_net_closed_def world_close_fails_def
  world_listener_close_fails_def world_accept_fails_def world_no_env_def
  world_no_sockets_def world_two_sockets_def world_v4_only_def

lemmas eval_defs =
  Run_def ToAddrEnvName_def Run_group_def handleListener_def
  handler_task_def handleConn_def bridgeStreams_def bridgeStreams_tasks_def
  bridge_copier_def bridge_closer_def group_Wait_def listener_closer_def Let_def
  copyStream_def closeAfterDone_def BridgeStreams_def BridgeStreams_tasks_def
  group_errs_def fmt_v_errs_def benign_copyStream_def benign_bridgeStreams_def
  completion_order_def

lemma set_task_errs: "set (task_errs rs) = {e. Some e \<in> set rs}"
  by (induction rs rule: task_errs.induct) auto

lemma task_errs_all_None: "(\<And>r. r \<in> set rs \<Longrightarrow> r = None) \<Longrightarrow> task_errs rs = []"
  by (induction rs rule: task_errs.induct) auto

lemma set_group_errs_subset: "set (group_errs finish rs) \<subseteq> {e. Some e \<in> set rs}"
  by (auto simp: group_errs_def set_task_errs split: if_splits)

lemma set_group_errs_complete:
  assumes "completion_order (length rs) finish"
  shows "set (group_errs finish rs) = {e. Some e \<in> set rs}"
proof
  show "set (group_errs finish rs) \<subseteq> {e. Some e \<in> set rs}"
    by (rule set_group_errs_subset)
  show "{e. Some e \<in> set rs} \<subseteq> set (group_errs finish rs)"
  proof
    fix e assume "e \<in> {e. Some e \<in> set rs}"
    then obtain i where i: "i < length rs" "rs ! i = Some e"
      by (auto simp: in_set_conv_nth)
    have "i \<in> set finish" using assms i by (simp add: completion_order_def)
    then have "Some e \<in> (\<lambda>i. if i < length rs then rs ! i else None) ` set finish"
      using i by force
    then show "e \<in> set (group_errs finish rs)"
      by (simp add: group_errs_def set_task_errs)
  qed
qed

lemma copyStream_nil_iff:
  "copyStream w dst src = None \<longleftrightarrow> benign_copyStream (io_Copy w dst src)"
  by (simp add: copyStream_def benign_copyStream_def split: option.splits)

lemma bridgeStreams_trace:
  "snd (bridgeStreams w to from) =
     snd (bridge_copier w ''copy from->to failed'' to from) @
     snd (bridge_copier w ''copy from<-to failed'' from to) @
     snd (bridge_closer w ''could not close from stream'' to) @
     snd (bridge_closer w ''could not close to stream'' from)"
  by (simp add: bridgeStreams_def bridgeStreams_tasks_def Let_def)

lemma copier_events:
  "set (snd (bridge_copier w msg dst src)) =
     {EvCopy dst src} \<union> {EvLog msg e | e. io_Copy w dst src = Some e \<and> \<not> errors_Is e NetErrClosed}"
  by (cases "io_Copy w dst src") (auto simp: bridge_copier_def)

lemma closer_events:
  "set (snd (bridge_closer w msg s)) =
     {EvClose s} \<union> {EvLog msg e | e. Close w s = Some e \<and> \<not> errors_Is e NetErrClosed}"
  by (cases "Close w s") (auto simp: bridge_closer_def)

lemma bridgeStreams_events:
  "set (snd (bridgeStreams w to from)) =
     {EvCopy to from, EvCopy from to, EvClose to, EvClose from} \<union>
     {EvLog ''copy from->to failed'' e | e. io_Copy w to from = Some e \<and> \<not> errors_Is e NetErrClosed} \<union>
     {EvLog ''copy from<-to failed'' e | e. io_Copy w from to = Some e \<and> \<not> errors_Is e NetErrClosed} \<union>
     {EvLog ''could not close from stream'' e | e. Close w to = Some e \<and> \<not> errors_Is e NetErrClosed} \<union>
     {EvLog ''could not close to stream'' e | e. Close w from = Some e \<and> \<not> errors_Is e NetErrClosed}"
  unfolding bridgeStreams_trace set_append copier_events closer_events by blast

lemma bridgeStreams_log_to:
  "EvLog ''copy from->to failed'' e \<in> set (snd (bridgeStreams w to from)) \<longleftrightarrow>
     io_Copy w to from = Some e \<and> \<not> errors_Is e NetErrClosed"
  unfolding bridgeStreams_events by simp

lemma bridgeStreams_log_from:
  "EvLog ''copy from<-to failed'' e \<in> set (snd (bridgeStreams w to from)) \<longleftrightarrow>
     io_Copy w from to = Some e \<and> \<not> errors_Is e NetErrClosed"
  unfolding bridgeStreams_events by simp

lemma group_Wait_all_None:
  "(\<And>r. r \<in> set rs \<Longrightarrow> r = None) \<Longrightarrow> group_Wait w rs = None"
  by (simp add: group_Wait_def task_errs_all_None)

lemma bridgeStreams_Done: "fst (bridgeStreams w to from) = Done ()"
proof -
  have "group_Wait w (map fst (bridgeStreams_tasks w to from)) = None"
    by (rule group_Wait_all_None)
       (auto simp: bridgeStreams_tasks_def bridge_copier_def bridge_closer_def)
  then show ?thesis by (simp add: bridgeStreams_def Let_def)
qed

lemma sublist_in_context: "sublist m xs \<Longrightarrow> sublist m (ps @ xs @ ss)"
proof -
  assume "sublist m xs"
  then obtain p s where "xs = p @ m @ s" by (auto simp: sublist_def)
  then have "ps @ xs @ ss = (ps @ p) @ m @ (s @ ss)" by simp
  then show ?thesis unfolding sublist_def by blast
qed

lemma sublist_join_space: "m \<in> set ms \<Longrightarrow> sublist m (join_space ms)"
proof (induction ms rule: join_space.induct)
  case 1
  then show ?case by simp
next
  case (2 m')
  then show ?case by simp
next
  case (3 m' v va)
  show ?case
  proof (cases "m = m'")
    case True
    then show ?thesis by simp
  next
    case False
    then have "sublist m (join_space (v # va))" using 3 by simp
    then have "sublist m ((m' @ '' '') @ join_space (v # va) @ [])"
      by (rule sublist_in_context)
    then show ?thesis by simp
  qed
qed

lemma sublist_fmt_v_errs: "e \<in> set es \<Longrightarrow> sublist (Error e) (fmt_v_errs es)"
proof -
  assume "e \<in> set es"
  then have "sublist (Error e) (join_space (map Error es))"
    by (intro sublist_join_space) simp
  then show ?thesis
    unfolding fmt_v_errs_def by (rule sublist_in_context)
qed

lemma set_close_all: "set (close_all w closers) = {e. \<exists>c \<in> set closers. Close w c = Some e}"
  by (induction closers) (auto split: option.splits)

lemma closeAfterDone_cases:
  "(close_all w closers = [] \<longrightarrow> closeAfterDone w closers = None) \<and>
   (\<forall>e. close_all w closers = [e] \<longrightarrow> closeAfterDone w closers = Some e) \<and>
   (2 \<le> length (close_all w closers) \<longrightarrow>
      closeAfterDone w closers =
        Some (Errorf (''multiple errors while closing closers: '' @ fmt_v_errs (close_all w closers))))"
  by (auto simp: closeAfterDone_def split: list.splits)

lemma BridgeStreams_cases:
  "(group_errs finish (BridgeStreams_tasks w a b) = [] \<longrightarrow> BridgeStreams w finish a b = None) \<and>
   (\<forall>e. group_errs finish (BridgeStreams_tasks w a b) = [e] \<longrightarrow> BridgeStreams w finish a b = Some e) \<and>
   (2 \<le> length (group_errs finish (BridgeStreams_tasks w a b)) \<longrightarrow>
      BridgeStreams w finish a b =
        Some (Errorf (''multiple errors while bridging streams: '' @
                      fmt_v_errs (group_errs finish (BridgeStreams_tasks w a b)))))"
  by (auto simp: BridgeStreams_def split: list.splits)

lemma accept_loop_errors:
  "accept_loop w toAddr (map Inr cs @ Inl e # rest) =
     (Done (if errors_Is e NetErrClosed then None
            else Some (Wrapf ''failed to accept new connection: '' e '''')),
      concat (map (\<lambda>c. [EvAccept, EvGo c]) cs) @ [EvAccept],
      map (handler_task w toAddr) cs)"
  by (induction cs) auto

lemma accept_loop_blocks:
  "accept_loop w toAddr (map Inr cs) =
     (Blocked, concat (map (\<lambda>c. [EvAccept, EvGo c]) cs) @ [EvAccept],
      map (handler_task w toAddr) cs)"
  by (induction cs) auto

lemma handleConn_Done: "fst (handleConn w from dst) = Done ()"
proof (cases "Dial w ''tcp6'' dst from")
  case (Inl e)
  then show ?thesis by (simp add: handleConn_def)
next
  case (Inr to)
  obtain r tr where b: "bridgeStreams w to from = (r, tr)" by (cases "bridgeStreams w to from")
  have "r = Done ()" using bridgeStreams_Done [of w to "from"] b by simp
  then show ?thesis using Inr b by (simp add: handleConn_def)
qed

lemma handler_task_Done: "fst (handler_task w toAddr from) = Done None"
proof -
  obtain r tr where h: "handleConn w from toAddr = (r, tr)" by (cases "handleConn w from toAddr")
  have "r = Done ()" using handleConn_Done [of w "from" toAddr] h by simp
  then show ?thesis using h by (simp add: handler_task_def)
qed

lemma join_tasks_Done:
  "(\<And>t. t \<in> set ts \<Longrightarrow> fst t = Done None) \<Longrightarrow> join_tasks ts = Done (replicate (length ts) None)"
proof (induction ts)
  case Nil
  show ?case by simp
next
  case (Cons t ts)
  obtain r tr where t: "t = (r, tr)" by (cases t)
  have "r = Done None" using Cons.prems [of t] t by simp
  moreover have "join_tasks ts = Done (replicate (length ts) None)"
    using Cons by simp
  ultimately show ?case using t by simp
qed

lemma task_errs_replicate_None [simp]: "task_errs (replicate n None) = []"
  by (induction n) auto

lemma BridgeStreams_tasks_benign:
  assumes "benign_copyStream (io_Copy w a b)"
  shows "set (group_errs finish (BridgeStreams_tasks w a b)) \<subseteq>
           set_option (copyStream w b a) \<union> set_option (closeAfterDone w [a, b])"
    and "set (group_errs finish (BridgeStreams_tasks w b a)) \<subseteq>
           set_option (copyStream w b a) \<union> set_option (closeAfterDone w [b, a])"
proof -
  have c: "copyStream w a b = None"
    using assms by (simp add: copyStream_nil_iff)
  have "{e. Some e \<in> set (BridgeStreams_tasks w a b)} \<subseteq>
          set_option (copyStream w b a) \<union> set_option (closeAfterDone w [a, b])"
    using c by (auto simp: BridgeStreams_tasks_def)
  then show "set (group_errs finish (BridgeStreams_tasks w a b)) \<subseteq>
           set_option (copyStream w b a) \<union> set_option (closeAfterDone w [a, b])"
    using set_group_errs_subset [of finish "BridgeStreams_tasks w a b"] by blast
  have "{e. Some e \<in> set (BridgeStreams_tasks w b a)} \<subseteq>
          set_option (copyStream w b a) \<union> set_option (closeAfterDone w [b, a])"
    using c by (auto simp: BridgeStreams_tasks_def)
  then show "set (group_errs finish (BridgeStreams_tasks w b a)) \<subseteq>
           set_option (copyStream w b a) \<union> set_option (closeAfterDone w [b, a])"
    using set_group_errs_subset [of finish "BridgeStreams_tasks w b a"] by blast
qed

lemma sublist_prefixed: "sublist m xs \<Longrightarrow> sublist m (ps @ xs)"
  using sublist_in_context [of m xs ps "[]"] by simp

lemma accept_loop_tasks_all:
  "\<forall>t \<in> set (snd (snd (accept_loop w toAddr script))). fst t = Done None"
proof (induction w toAddr script rule: accept_loop.induct)
  case (1 w toAddr)
  show ?case by simp
next
  case (2 w toAddr e rest)
  show ?case by simp
next
  case (3 w toAddr "from" rest)
  obtain r tr tasks where rest: "accept_loop w toAddr rest = (r, tr, tasks)"
    by (cases "accept_loop w toAddr rest")
  have "\<forall>t \<in> set tasks. fst t = Done None" using 3 rest by simp
  then show ?case using rest by (simp add: handler_task_Done)
qed

lemma accept_loop_tasks:
  "t \<in> set (snd (snd (accept_loop w toAddr script))) \<Longrightarrow> fst t = Done None"
  using accept_loop_tasks_all by blast

lemma dial_in_bridge: "filter is_dial (snd (bridgeStreams w to from)) = []"
  by (simp add: bridgeStreams_trace bridge_copier_def bridge_closer_def split: option.splits)

lemma handleConn_dials: "filter is_dial (snd (handleConn w from dst)) = [EvDial ''tcp6'' dst]"
proof (cases "Dial w ''tcp6'' dst from")
  case (Inl e)
  then show ?thesis by (simp add: handleConn_def split: option.splits)
next
  case (Inr to)
  obtain r tr where b: "bridgeStreams w to from = (r, tr)" by (cases "bridgeStreams w to from")
  have "filter is_dial tr = []" using dial_in_bridge [of w to "from"] b by simp
  then show ?thesis using Inr b by (simp add: handleConn_def)
qed

lemma handleConn_dial_failed:
  "Dial w ''tcp6'' dst from = Inl e \<Longrightarrow>
   handleConn w from dst =
     (Done (),
      [EvDial ''tcp6'' dst,
       EvLog ''couldn't connect to dstAddr. closing accepted connection'' e,
       EvClose from] @
      (case Close w from of
         None \<Rightarrow> []
       | Some e' \<Rightarrow> [EvLog ''couldn't close accepted connection'' e']))"
  by (simp add: handleConn_def)

lemma bridgeStreams_Dial_update: "bridgeStreams (w\<lparr>Dial := d\<rparr>) to from = bridgeStreams w to from"
  by (simp add: bridgeStreams_def bridgeStreams_tasks_def bridge_copier_def bridge_closer_def
      group_Wait_def)

lemma handleConn_Dial_update:
  "d ''tcp6'' = Dial w ''tcp6'' \<Longrightarrow> handleConn (w\<lparr>Dial := d\<rparr>) from dst = handleConn w from dst"
  by (cases "Dial w ''tcp6'' dst from") (simp_all add: handleConn_def bridgeStreams_Dial_update)

lemma Run_group_Done:
  assumes "fst (handleListener w toAddr l) = Done ra"
  shows "fst (Run_group w toAddr l) =
           Done (case task_errs [ra, map_option (\<lambda>e. Wrapf ''could not close listener: '' e '''')
                                       (CloseListener w l)] of
                   [] \<Rightarrow> None
                 | e # es \<Rightarrow> Some (Wrapf ''listening group failed: '' (aggregate w (e # es)) ''''))"
proof -
  obtain r tr handlers where h: "handleListener w toAddr l = (r, tr, handlers)"
    by (cases "handleListener w toAddr l")
  have r: "r = Done ra" using assms h by simp
  have hs: "\<And>t. t \<in> set handlers \<Longrightarrow> fst t = Done None"
    using accept_loop_tasks [of _ w toAddr "Accept w l"] h by (simp add: handleListener_def)
  have j: "join_tasks handlers = Done (replicate (length handlers) None)"
    using hs by (rule join_tasks_Done)
  obtain rc where c: "listener_closer w l r = (Done rc, [EvCloseListener l])"
    and rc: "rc = map_option (\<lambda>e. Wrapf ''could not close listener: '' e '''') (CloseListener w l)"
    using r by (cases "CloseListener w l") (auto simp: listener_closer_def)
  have "join_tasks ((r, tr) # listener_closer w l r # handlers) =
          Done (ra # rc # replicate (length handlers) None)"
    using r c j by simp
  moreover have "task_errs (ra # rc # replicate (length handlers) None) = task_errs [ra, rc]"
    by (cases ra; cases rc) simp_all
  ultimately show ?thesis
    using h rc by (simp add: Run_group_def Let_def group_Wait_def split: list.splits)
qed

lemma Run_group_trace_accepts: "EvAccept \<in> set (snd (Run_group w toAddr l))"
proof -
  have "EvAccept \<in> set (fst (snd (accept_loop w toAddr script)))" for script
    by (induction w toAddr script rule: accept_loop.induct) (auto split: prod.splits)
  then have "EvAccept \<in> set (fst (snd (handleListener w toAddr l)))"
    by (simp add: handleListener_def)
  then show ?thesis
    by (auto simp: Run_group_def Let_def split: prod.splits)
qed

lemma Run_started:
  assumes "LookupEnv w ToAddrEnvName = Some toAddr" and "Listeners w = Inr [l]"
  shows "Run w = (fst (Run_group w toAddr l),
                  EvLookupEnv ToAddrEnvName # EvListeners # snd (Run_group w toAddr l))"
  using assms by (simp add: Run_def split: prod.splits)

lemma BridgeStreams_nil_iff:
  assumes "completion_order 3 finish"
  shows "BridgeStreams w finish a b = None \<longleftrightarrow>
           copyStream w a b = None \<and> copyStream w b a = None \<and> closeAfterDone w [a, b] = None"
proof -
  have "length (BridgeStreams_tasks w a b) = 3"
    by (simp add: BridgeStreams_tasks_def)
  then have "completion_order (length (BridgeStreams_tasks w a b)) finish"
    using assms by simp
  then have s: "set (group_errs finish (BridgeStreams_tasks w a b)) =
                  {x. Some x \<in> set (BridgeStreams_tasks w a b)}"
    by (rule set_group_errs_complete)
  have "BridgeStreams w finish a b = None \<longleftrightarrow> group_errs finish (BridgeStreams_tasks w a b) = []"
    by (simp add: BridgeStreams_def split: list.splits)
  also have "\<dots> \<longleftrightarrow> set (group_errs finish (BridgeStreams_tasks w a b)) = {}"
    by simp
  also have "\<dots> \<longleftrightarrow> copyStream w a b = None \<and> copyStream w b a = None \<and> closeAfterDone w [a, b] = None"
    unfolding s
    by (cases "copyStream w a b"; cases "copyStream w b a"; cases "closeAfterDone w [a, b]")
       (auto simp: BridgeStreams_tasks_def)
  finally show ?thesis .
qed

lemma copy_after_failed_dial:
  "Dial w ''tcp6'' dst from = Inl e \<Longrightarrow> filter is_copy (snd (handleConn w from dst)) = []"
  by (cases "Close w from") (simp_all add: handleConn_def)

lemma close_after_failed_dial:
  "Dial w ''tcp6'' dst from = Inl e \<Longrightarrow> EvClose from \<in> set (snd (handleConn w from dst))"
  by (simp add: handleConn_def)

section \<open>The claims\<close>

subsection \<open>C1: benign closure of a copy\<close>

text \<open>
  Claim C1, as the code has it. \<^verbatim>\<open>copyStream\<close> returns \<^verbatim>\<open>nil\<close> exactly when
  \<^verbatim>\<open>io.Copy\<close> ended with \<^verbatim>\<open>nil\<close>, \<^verbatim>\<open>os.ErrClosed\<close> or \<^verbatim>\<open>net.ErrClosed\<close>; when a
  copy of \<^verbatim>\<open>BridgeStreams\<close> ends so, in either position, the errors the group reports
  hold nothing but what the other copy and \<^verbatim>\<open>closeAfterDone\<close> returned. The top level
  \<^verbatim>\<open>bridgeStreams\<close> logs the error of a copy exactly when it is not \<^verbatim>\<open>nil\<close> and not
  \<^verbatim>\<open>net.ErrClosed\<close>: its test does not name \<^verbatim>\<open>os.ErrClosed\<close>.
\<close>

theorem copy_closure_classification:
  "(copyStream w dst src = None \<longleftrightarrow> benign_copyStream (io_Copy w dst src)) \<and>
   (benign_copyStream (io_Copy w a b) \<longrightarrow>
      set (group_errs finish (BridgeStreams_tasks w a b)) \<subseteq>
        set_option (copyStream w b a) \<union> set_option (closeAfterDone w [a, b]) \<and>
      set (group_errs finish (BridgeStreams_tasks w b a)) \<subseteq>
        set_option (copyStream w b a) \<union> set_option (closeAfterDone w [b, a])) \<and>
   (EvLog ''copy from->to failed'' e \<in> set (snd (bridgeStreams w to from)) \<longleftrightarrow>
      io_Copy w to from = Some e \<and> \<not> benign_bridgeStreams (Some e)) \<and>
   (EvLog ''copy from<-to failed'' e \<in> set (snd (bridgeStreams w to from)) \<longleftrightarrow>
      io_Copy w from to = Some e \<and> \<not> benign_bridgeStreams (Some e))"
proof (intro conjI impI)
  show "copyStream w dst src = None \<longleftrightarrow> benign_copyStream (io_Copy w dst src)"
    by (rule copyStream_nil_iff)
  show "set (group_errs finish (BridgeStreams_tasks w a b)) \<subseteq>
        set_option (copyStream w b a) \<union> set_option (closeAfterDone w [a, b])"
    if "benign_copyStream (io_Copy w a b)"
    using that by (rule BridgeStreams_tasks_benign)
  show "set (group_errs finish (BridgeStreams_tasks w b a)) \<subseteq>
        set_option (copyStream w b a) \<union> set_option (closeAfterDone w [b, a])"
    if "benign_copyStream (io_Copy w a b)"
    using that by (rule BridgeStreams_tasks_benign)
  show "EvLog ''copy from->to failed'' e \<in> set (snd (bridgeStreams w to from)) \<longleftrightarrow>
      io_Copy w to from = Some e \<and> \<not> benign_bridgeStreams (Some e)"
    by (simp add: bridgeStreams_log_to benign_bridgeStreams_def)
  show "EvLog ''copy from<-to failed'' e \<in> set (snd (bridgeStreams w to from)) \<longleftrightarrow>
      io_Copy w from to = Some e \<and> \<not> benign_bridgeStreams (Some e)"
    by (simp add: bridgeStreams_log_from benign_bridgeStreams_def)
qed

text \<open>
  Both copies of a bridge end on a closed network connection: nothing is returned and
  nothing is logged. A copy that ends on a closed file is logged by the top level bridge.
\<close>

theorem copy_closure_classification_witness:
  "benign_copyStream (io_Copy world_net_closed 1 0) \<and>
   benign_copyStream (io_Copy world_net_closed 0 1) \<and>
   copyStream world_net_closed 1 0 = None \<and>
   group_errs [1, 0, 2] (BridgeStreams_tasks world_net_closed 1 0) = [] \<and>
   EvLog ''copy from->to failed'' (Wrapf ''read tcp: '' NetErrClosed '''')
     \<notin> set (snd (bridgeStreams world_net_closed 1 0)) \<and>
   EvLog ''copy from<-to failed'' OsErrClosed \<in> set (snd (bridgeStreams world_file_closed 1 0))"
  using copy_closure_classification [of world_net_closed 1 0 1 0 "[1, 0, 2]"
          "Wrapf ''read tcp: '' NetErrClosed ''''" 1 0]
        copy_closure_classification [of world_file_closed 1 0 1 0 "[1, 0, 2]" OsErrClosed 1 0]
  by (simp add: world_defs eval_defs)

text \<open>
  Claim C1 as stated fails for \<^verbatim>\<open>os.ErrClosed\<close>: \<^verbatim>\<open>copyStream\<close> answers it with
  \<^verbatim>\<open>nil\<close>, and the top level \<^verbatim>\<open>bridgeStreams\<close> reports the same result of \<^verbatim>\<open>io.Copy\<close>
  to the logger.
\<close>

theorem copy_closure_logged_counterexample:
  "benign_copyStream (io_Copy world_file_closed 1 0) \<and>
   copyStream world_file_closed 1 0 = None \<and>
   EvLog ''copy from->to failed'' OsErrClosed \<in> set (snd (bridgeStreams world_file_closed 1 0))"
  by (simp add: world_defs eval_defs)

subsection \<open>C2: joining the errors of one scope\<close>

text \<open>
  Claim C2. For the errors \<^verbatim>\<open>closeAfterDone\<close> collects from its closers, and for the
  errors the group of \<^verbatim>\<open>BridgeStreams\<close> reports: none gives \<^verbatim>\<open>nil\<close>, one is returned
  as it is, two or more give one new error whose message contains the message of every
  one of them. Collecting drops nothing: every error a closer returned is collected, and
  when the completion order lists each of the three tasks once, every error a task
  returned is reported.
\<close>

theorem error_set_join:
  "(close_all w closers = [] \<longrightarrow> closeAfterDone w closers = None) \<and>
   (close_all w closers = [e] \<longrightarrow> closeAfterDone w closers = Some e) \<and>
   (2 \<le> length (close_all w closers) \<longrightarrow>
      (\<exists>m. closeAfterDone w closers = Some (Errorf m) \<and>
           (\<forall>x \<in> set (close_all w closers). sublist (Error x) m))) \<and>
   set (close_all w closers) = {x. \<exists>c \<in> set closers. Close w c = Some x} \<and>
   (group_errs finish (BridgeStreams_tasks w a b) = [] \<longrightarrow> BridgeStreams w finish a b = None) \<and>
   (group_errs finish (BridgeStreams_tasks w a b) = [e'] \<longrightarrow> BridgeStreams w finish a b = Some e') \<and>
   (2 \<le> length (group_errs finish (BridgeStreams_tasks w a b)) \<longrightarrow>
      (\<exists>m. BridgeStreams w finish a b = Some (Errorf m) \<and>
           (\<forall>x \<in> set (group_errs finish (BridgeStreams_tasks w a b)). sublist (Error x) m))) \<and>
   (completion_order 3 finish \<longrightarrow>
      set (group_errs finish (BridgeStreams_tasks w a b)) =
        {x. Some x \<in> set (BridgeStreams_tasks w a b)})"
proof (intro conjI impI)
  show "closeAfterDone w closers = None" if "close_all w closers = []"
    using that closeAfterDone_cases by blast
  show "closeAfterDone w closers = Some e" if "close_all w closers = [e]"
    using that closeAfterDone_cases by blast
  show "\<exists>m. closeAfterDone w closers = Some (Errorf m) \<and>
           (\<forall>x \<in> set (close_all w closers). sublist (Error x) m)"
    if "2 \<le> length (close_all w closers)"
  proof (intro exI conjI ballI)
    show "closeAfterDone w closers =
        Some (Errorf (''multiple errors while closing closers: '' @ fmt_v_errs (close_all w closers)))"
      using that closeAfterDone_cases by blast
    show "sublist (Error x) (''multiple errors while closing closers: '' @ fmt_v_errs (close_all w closers))"
      if "x \<in> set (close_all w closers)" for x
      using sublist_fmt_v_errs [OF that] by (rule sublist_prefixed)
  qed
  show "set (close_all w closers) = {x. \<exists>c \<in> set closers. Close w c = Some x}"
    by (rule set_close_all)
  show "BridgeStreams w finish a b = None" if "group_errs finish (BridgeStreams_tasks w a b) = []"
    using that BridgeStreams_cases by blast
  show "BridgeStreams w finish a b = Some e'" if "group_errs finish (BridgeStreams_tasks w a b) = [e']"
    using that BridgeStreams_cases by blast
  show "\<exists>m. BridgeStreams w finish a b = Some (Errorf m) \<and>
           (\<forall>x \<in> set (group_errs finish (BridgeStreams_tasks w a b)). sublist (Error x) m)"
    if "2 \<le> length (group_errs finish (BridgeStreams_tasks w a b))"
  proof (intro exI conjI ballI)
    show "BridgeStreams w finish a b =
        Some (Errorf (''multiple errors while bridging streams: '' @
                      fmt_v_errs (group_errs finish (BridgeStreams_tasks w a b))))"
      using that BridgeStreams_cases by blast
    show "sublist (Error x) (''multiple errors while bridging streams: '' @
                      fmt_v_errs (group_errs finish (BridgeStreams_tasks w a b)))"
      if "x \<in> set (group_errs finish (BridgeStreams_tasks w a b))" for x
      using sublist_fmt_v_errs [OF that] by (rule sublist_prefixed)
  qed
  show "set (group_errs finish (BridgeStreams_tasks w a b)) =
        {x. Some x \<in> set (BridgeStreams_tasks w a b)}"
    if "completion_order 3 finish"
  proof -
    have "length (BridgeStreams_tasks w a b) = 3"
      by (simp add: BridgeStreams_tasks_def)
    then have "completion_order (length (BridgeStreams_tasks w a b)) finish"
      using that by simp
    then show ?thesis by (rule set_group_errs_complete)
  qed
qed

text \<open>No error, one error and two errors of the closers; no error of the group.\<close>

theorem error_set_join_witness:
  "close_all world_quiet [0, 1] = [] \<and> closeAfterDone world_quiet [0, 1] = None \<and>
   close_all world_close_fails [0] = [Foreign ''EIO''] \<and>
   closeAfterDone world_close_fails [0] = Some (Foreign ''EIO'') \<and>
   close_all world_close_fails [0, 1] = [Foreign ''EIO'', Foreign ''EBADF''] \<and>
   closeAfterDone world_close_fails [0, 1] =
     Some (Errorf ''multiple errors while closing closers: [EIO EBADF]'') \<and>
   completion_order 3 [2, 0, 1] \<and>
   group_errs [2, 0, 1] (BridgeStreams_tasks world_quiet 0 1) = [] \<and>
   BridgeStreams world_quiet [2, 0, 1] 0 1 = None \<and>
   set (group_errs [2, 0, 1] (BridgeStreams_tasks world_close_fails 0 1)) =
     {x. Some x \<in> set (BridgeStreams_tasks world_close_fails 0 1)}"
proof -
  have order: "completion_order 3 [2, 0, 1]"
    by (auto simp: completion_order_def)
  have quiet: "close_all world_quiet [0, 1] = []"
    by (simp add: world_defs)
  have one: "close_all world_close_fails [0] = [Foreign ''EIO'']"
    by (simp add: world_defs)
  have two: "close_all world_close_fails [0, 1] = [Foreign ''EIO'', Foreign ''EBADF'']"
    by (simp add: world_defs)
  have none: "group_errs [2, 0, 1] (BridgeStreams_tasks world_quiet 0 1) = []"
    by (simp add: world_defs eval_defs)
  have two_msg: "closeAfterDone world_close_fails [0, 1] =
     Some (Errorf ''multiple errors while closing closers: [EIO EBADF]'')"
    by (simp add: world_defs eval_defs)
  show ?thesis
    using error_set_join [of world_quiet "[0, 1]" "Foreign ''EIO''" "[2, 0, 1]" 0 1 "Foreign ''EIO''"]
          error_set_join [of world_close_fails "[0]" "Foreign ''EIO''" "[2, 0, 1]" 0 1 "Foreign ''EIO''"]
          order quiet one two none two_msg
    by simp
qed

subsection \<open>C3: the accept loop\<close>

text \<open>
  Claim C3. When \<^verbatim>\<open>Accept\<close> answers with connections \<open>cs\<close> and then with an error, the
  loop returns: \<^verbatim>\<open>nil\<close> when the error is \<^verbatim>\<open>net.ErrClosed\<close>, the error wrapped
  otherwise. Before that it has handed one handler task to the group for each connection
  of \<open>cs\<close>, each right after the accept that gave the connection and before the next
  accept. While \<^verbatim>\<open>Accept\<close> never answers with an error the loop does not return.
\<close>

theorem accept_loop_run:
  "(Accept w l = map Inr cs @ Inl e # rest \<longrightarrow>
      handleListener w toAddr l =
        (Done (if errors_Is e NetErrClosed then None
               else Some (Wrapf ''failed to accept new connection: '' e '''')),
         concat (map (\<lambda>c. [EvAccept, EvGo c]) cs) @ [EvAccept],
         map (handler_task w toAddr) cs)) \<and>
   (Accept w l = map Inr cs \<longrightarrow>
      handleListener w toAddr l =
        (Blocked, concat (map (\<lambda>c. [EvAccept, EvGo c]) cs) @ [EvAccept],
         map (handler_task w toAddr) cs))"
  by (simp add: handleListener_def accept_loop_errors accept_loop_blocks)

text \<open>Two clients and then the closed listener; one client and then a failing accept.\<close>

theorem accept_loop_run_witness:
  "Accept world_quiet 3 = map Inr [10, 20] @ [Inl (Wrapf ''accept tcp [::]:80: '' NetErrClosed '''')] \<and>
   handleListener world_quiet ''[::1]:8080'' 3 =
     (Done None, [EvAccept, EvGo 10, EvAccept, EvGo 20, EvAccept],
      [handler_task world_quiet ''[::1]:8080'' 10, handler_task world_quiet ''[::1]:8080'' 20]) \<and>
   Accept world_accept_fails 3 = map Inr [10] @ [Inl (Foreign ''too many open files'')] \<and>
   handleListener world_accept_fails ''[::1]:8080'' 3 =
     (Done (Some (Wrapf ''failed to accept new connection: '' (Foreign ''too many open files'') '''')),
      [EvAccept, EvGo 10, EvAccept],
      [handler_task world_accept_fails ''[::1]:8080'' 10])"
proof -
  have q: "Accept world_quiet 3 = map Inr [10, 20] @ [Inl (Wrapf ''accept tcp [::]:80: '' NetErrClosed '''')]"
    by (simp add: world_defs)
  have f: "Accept world_accept_fails 3 = map Inr [10] @ [Inl (Foreign ''too many open files'')]"
    by (simp add: world_defs)
  show ?thesis
    using accept_loop_run [of world_quiet 3 "[10, 20]" "Wrapf ''accept tcp [::]:80: '' NetErrClosed ''''"
                              "[]" "''[::1]:8080''"]
          accept_loop_run [of world_accept_fails 3 "[10]" "Foreign ''too many open files''"
                              "[]" "''[::1]:8080''"]
          q f
    by simp
qed

subsection \<open>C4: the tasks of the top level bridge\<close>

text \<open>
  Claim C4. \<^verbatim>\<open>bridgeStreams\<close> starts four tasks, each of them returns \<^verbatim>\<open>nil\<close>, so
  \<^verbatim>\<open>Wait\<close> gives \<^verbatim>\<open>nil\<close> and \<^verbatim>\<open>bridgeStreams\<close> returns without the panic. The
  library level \<^verbatim>\<open>BridgeStreams\<close> returns \<^verbatim>\<open>nil\<close> only if all of its three tasks
  returned \<^verbatim>\<open>nil\<close>, and the error of the group otherwise.
\<close>

theorem bridge_tasks_return_nil:
  "length (bridgeStreams_tasks w to from) = 4 \<and>
   (\<forall>t \<in> set (bridgeStreams_tasks w to from). fst t = None) \<and>
   group_Wait w (map fst (bridgeStreams_tasks w to from)) = None \<and>
   fst (bridgeStreams w to from) = Done () \<and>
   (completion_order 3 finish \<longrightarrow>
      (BridgeStreams w finish a b = None \<longleftrightarrow>
         copyStream w a b = None \<and> copyStream w b a = None \<and> closeAfterDone w [a, b] = None))"
proof (intro conjI impI)
  show "length (bridgeStreams_tasks w to from) = 4"
    by (simp add: bridgeStreams_tasks_def)
  show all: "\<forall>t \<in> set (bridgeStreams_tasks w to from). fst t = None"
    by (simp add: bridgeStreams_tasks_def bridge_copier_def bridge_closer_def)
  show "group_Wait w (map fst (bridgeStreams_tasks w to from)) = None"
    using all by (intro group_Wait_all_None) auto
  show "fst (bridgeStreams w to from) = Done ()"
    by (rule bridgeStreams_Done)
  show "BridgeStreams w finish a b = None \<longleftrightarrow>
         copyStream w a b = None \<and> copyStream w b a = None \<and> closeAfterDone w [a, b] = None"
    if "completion_order 3 finish"
    using that by (rule BridgeStreams_nil_iff)
qed

text \<open>
  Copies and closes that all fail: the top level bridge returns, the library level bridge
  returns an error.
\<close>

theorem bridge_tasks_return_nil_witness:
  "map fst (bridgeStreams_tasks world_close_fails 1 0) = [None, None, None, None] \<and>
   fst (bridgeStreams world_close_fails 1 0) = Done () \<and>
   completion_order 3 [2, 0, 1] \<and>
   copyStream world_close_fails 1 0 =
     Some (Wrapf ''io.Copy failed: '' (Foreign ''connection reset by peer'') '''') \<and>
   BridgeStreams world_close_fails [2, 0, 1] 1 0 \<noteq> None"
proof -
  have order: "completion_order 3 [2, 0, 1]"
    by (auto simp: completion_order_def)
  have c: "copyStream world_close_fails 1 0 =
     Some (Wrapf ''io.Copy failed: '' (Foreign ''connection reset by peer'') '''')"
    by (simp add: world_defs copyStream_def)
  have t: "map fst (bridgeStreams_tasks world_close_fails 1 0) = [None, None, None, None]"
    by (simp add: bridgeStreams_tasks_def bridge_copier_def bridge_closer_def)
  show ?thesis
    using bridge_tasks_return_nil [of world_close_fails 1 0 "[2, 0, 1]" 1 0] order c t
    by simp
qed

subsection \<open>C5: the result of the service\<close>

text \<open>
  Claim C5, as the code has it. When startup succeeds and the accept loop returns, \<^verbatim>\<open>Run\<close>
  returns; its result is \<^verbatim>\<open>nil\<close> exactly when the accept loop returned \<^verbatim>\<open>nil\<close> and
  closing the listener succeeded. Otherwise it is the error of the group, wrapped, for
  the errors of the accept loop and of the close.
\<close>

theorem run_result:
  assumes "LookupEnv w ToAddrEnvName = Some toAddr"
    and "Listeners w = Inr [l]"
    and "fst (handleListener w toAddr l) = Done accepted"
  shows "fst (Run w) =
           Done (case task_errs [accepted,
                                 map_option (\<lambda>e. Wrapf ''could not close listener: '' e '''')
                                   (CloseListener w l)] of
                   [] \<Rightarrow> None
                 | e # es \<Rightarrow> Some (Wrapf ''listening group failed: '' (aggregate w (e # es)) ''''))
         \<and> (fst (Run w) = Done None \<longleftrightarrow> accepted = None \<and> CloseListener w l = None)"
proof -
  have "fst (Run w) = fst (Run_group w toAddr l)"
    using assms(1,2) by (simp add: Run_started)
  then have eq: "fst (Run w) =
           Done (case task_errs [accepted,
                                 map_option (\<lambda>e. Wrapf ''could not close listener: '' e '''')
                                   (CloseListener w l)] of
                   [] \<Rightarrow> None
                 | e # es \<Rightarrow> Some (Wrapf ''listening group failed: '' (aggregate w (e # es)) ''''))"
    using Run_group_Done [OF assms(3)] by simp
  have "fst (Run w) = Done None \<longleftrightarrow> accepted = None \<and> CloseListener w l = None"
    unfolding eq by (cases accepted; cases "CloseListener w l") simp_all
  with eq show ?thesis by simp
qed

text \<open>A failing accept is the result of the service; a closed listener gives success.\<close>

theorem run_result_witness:
  "LookupEnv world_accept_fails ToAddrEnvName = Some ''[::1]:8080'' \<and>
   Listeners world_accept_fails = Inr [3] \<and>
   fst (handleListener world_accept_fails ''[::1]:8080'' 3) =
     Done (Some (Wrapf ''failed to accept new connection: '' (Foreign ''too many open files'') '''')) \<and>
   fst (Run world_accept_fails) =
     Done (Some (Wrapf ''listening group failed: ''
                   (Errorf ''[failed to accept new connection: too many open files]'') '''')) \<and>
   fst (handleListener world_quiet ''[::1]:8080'' 3) = Done None \<and>
   CloseListener world_quiet 3 = None \<and>
   fst (Run world_quiet) = Done None"
proof -
  have e: "LookupEnv world_accept_fails ToAddrEnvName = Some ''[::1]:8080''"
          "LookupEnv world_quiet ToAddrEnvName = Some ''[::1]:8080''"
    by (simp_all add: world_defs)
  have s: "Listeners world_accept_fails = Inr [3]" "Listeners world_quiet = Inr [3]"
    by (simp_all add: world_defs)
  have a: "fst (handleListener world_accept_fails ''[::1]:8080'' 3) =
     Done (Some (Wrapf ''failed to accept new connection: '' (Foreign ''too many open files'') ''''))"
    by (simp add: world_defs handleListener_def)
  have q: "fst (handleListener world_quiet ''[::1]:8080'' 3) = Done None"
    by (simp add: world_defs handleListener_def)
  have c: "CloseListener world_quiet 3 = None" "CloseListener world_accept_fails 3 = None"
    by (simp_all add: world_defs)
  have g: "aggregate world_accept_fails
             [Wrapf ''failed to accept new connection: '' (Foreign ''too many open files'') ''''] =
           Errorf ''[failed to accept new connection: too many open files]''"
    by (simp add: world_defs fmt_v_errs_def)
  show ?thesis
    using run_result [OF e(1) s(1) a] run_result [OF e(2) s(2) q] e s a q c g
    by simp
qed

text \<open>
  Claim C5 as stated fails when closing the listener fails: the accept loop returns
  \<^verbatim>\<open>nil\<close> on the closed listener, and \<^verbatim>\<open>Run\<close> returns the error of the close.
\<close>

theorem run_result_counterexample:
  "fst (handleListener world_listener_close_fails ''[::1]:8080'' 3) = Done None \<and>
   fst (Run world_listener_close_fails) =
     Done (Some (Wrapf ''listening group failed: ''
                   (Errorf ''[could not close listener: input/output error]'') ''''))"
  by (simp add: world_defs eval_defs)

subsection \<open>C6: startup\<close>

text \<open>
  Claim C6. \<^verbatim>\<open>Run\<close> returns an error, and no accept is attempted, when the variable of
  the destination is unset (the error is \<^verbatim>\<open>errEnvMissing\<close>), when the number of sockets
  passed in is not one (the error is \<^verbatim>\<open>errUnexpectedSocketAmount\<close>), and when the sockets
  cannot be obtained at all. With the variable set and one socket passed in, \<^verbatim>\<open>Run\<close>
  goes on with the group of the accept loop, and \<^verbatim>\<open>Accept\<close> is called.
\<close>

theorem startup_fail_fast:
  "(LookupEnv w ToAddrEnvName = None \<longrightarrow>
      (\<exists>e. fst (Run w) = Done (Some e) \<and> errors_Is e ErrEnvMissing) \<and>
      EvAccept \<notin> set (snd (Run w))) \<and>
   (LookupEnv w ToAddrEnvName = Some toAddr \<and> Listeners w = Inr ls \<and> length ls \<noteq> 1 \<longrightarrow>
      (\<exists>e. fst (Run w) = Done (Some e) \<and> errors_Is e ErrUnexpectedSocketAmount) \<and>
      EvAccept \<notin> set (snd (Run w))) \<and>
   (LookupEnv w ToAddrEnvName = Some toAddr \<and> Listeners w = Inl e' \<longrightarrow>
      fst (Run w) = Done (Some (Wrapf ''could not get systemd sockets: '' e' '''')) \<and>
      EvAccept \<notin> set (snd (Run w))) \<and>
   (LookupEnv w ToAddrEnvName = Some toAddr \<and> Listeners w = Inr [l] \<longrightarrow>
      Run w = (fst (Run_group w toAddr l),
               EvLookupEnv ToAddrEnvName # EvListeners # snd (Run_group w toAddr l)) \<and>
      EvAccept \<in> set (snd (Run w)))"
proof (intro conjI impI)
  assume "LookupEnv w ToAddrEnvName = None"
  then have r: "Run w = (Done (Some (Wrapf '''' ErrEnvMissing ('': '' @ ToAddrEnvName))),
                         [EvLookupEnv ToAddrEnvName])"
    by (simp add: Run_def)
  show "\<exists>e. fst (Run w) = Done (Some e) \<and> errors_Is e ErrEnvMissing"
    unfolding r by simp
  show "EvAccept \<notin> set (snd (Run w))"
    unfolding r by simp
next
  assume "LookupEnv w ToAddrEnvName = Some toAddr \<and> Listeners w = Inr ls \<and> length ls \<noteq> 1"
  then have r: "Run w = (Done (Some (Wrapf '''' ErrUnexpectedSocketAmount
                                       ('': '' @ fmt_listeners w ls))),
                         [EvLookupEnv ToAddrEnvName, EvListeners])"
    by (simp add: Run_def)
  show "\<exists>e. fst (Run w) = Done (Some e) \<and> errors_Is e ErrUnexpectedSocketAmount"
    unfolding r by simp
  show "EvAccept \<notin> set (snd (Run w))"
    unfolding r by simp
next
  assume "LookupEnv w ToAddrEnvName = Some toAddr \<and> Listeners w = Inl e'"
  then have r: "Run w = (Done (Some (Wrapf ''could not get systemd sockets: '' e' '''')),
                         [EvLookupEnv ToAddrEnvName, EvListeners])"
    by (simp add: Run_def)
  show "fst (Run w) = Done (Some (Wrapf ''could not get systemd sockets: '' e' ''''))"
    unfolding r by simp
  show "EvAccept \<notin> set (snd (Run w))"
    unfolding r by simp
next
  assume a: "LookupEnv w ToAddrEnvName = Some toAddr \<and> Listeners w = Inr [l]"
  then show r: "Run w = (fst (Run_group w toAddr l),
               EvLookupEnv ToAddrEnvName # EvListeners # snd (Run_group w toAddr l))"
    by (simp add: Run_started)
  show "EvAccept \<in> set (snd (Run w))"
    unfolding r by (simp add: Run_group_trace_accepts)
qed

text \<open>No variable; two sockets; the variable and one socket.\<close>

theorem startup_fail_fast_witness:
  "LookupEnv world_no_env ToAddrEnvName = None \<and>
   Run world_no_env =
     (Done (Some (Wrapf '''' ErrEnvMissing '': TCPV4TO6_DESTINATION_ADDR'')),
      [EvLookupEnv ''TCPV4TO6_DESTINATION_ADDR'']) \<and>
   LookupEnv world_no_sockets ToAddrEnvName = Some ''[::1]:8080'' \<and>
   Listeners world_no_sockets = Inr [] \<and>
   Run world_no_sockets =
     (Done (Some (Wrapf '''' ErrUnexpectedSocketAmount '': []'')),
      [EvLookupEnv ''TCPV4TO6_DESTINATION_ADDR'', EvListeners]) \<and>
   LookupEnv world_two_sockets ToAddrEnvName = Some ''[::1]:8080'' \<and>
   Listeners world_two_sockets = Inr [3, 4] \<and>
   Run world_two_sockets =
     (Done (Some (Wrapf '''' ErrUnexpectedSocketAmount '': []'')),
      [EvLookupEnv ''TCPV4TO6_DESTINATION_ADDR'', EvListeners]) \<and>
   LookupEnv world_quiet ToAddrEnvName = Some ''[::1]:8080'' \<and>
   Listeners world_quiet = Inr [3] \<and>
   EvAccept \<in> set (snd (Run world_quiet))"
proof -
  have e: "LookupEnv world_no_env ToAddrEnvName = None"
          "LookupEnv world_two_sockets ToAddrEnvName = Some ''[::1]:8080''"
          "LookupEnv world_quiet ToAddrEnvName = Some ''[::1]:8080''"
          "LookupEnv world_no_sockets ToAddrEnvName = Some ''[::1]:8080''"
    by (simp_all add: world_defs)
  have s: "Listeners world_two_sockets = Inr [3, 4]" "Listeners world_quiet = Inr [3]"
          "Listeners world_no_sockets = Inr []"
    by (simp_all add: world_defs)
  have r0: "Run world_no_sockets =
     (Done (Some (Wrapf '''' ErrUnexpectedSocketAmount '': []'')),
      [EvLookupEnv ''TCPV4TO6_DESTINATION_ADDR'', EvListeners])"
    using e(4) s(3) by (simp add: Run_def) (simp add: ToAddrEnvName_def world_defs)
  have r1: "Run world_no_env =
     (Done (Some (Wrapf '''' ErrEnvMissing '': TCPV4TO6_DESTINATION_ADDR'')),
      [EvLookupEnv ''TCPV4TO6_DESTINATION_ADDR''])"
    using e(1) by (simp add: Run_def) (simp add: ToAddrEnvName_def)
  have r2: "Run world_two_sockets =
     (Done (Some (Wrapf '''' ErrUnexpectedSocketAmount '': []'')),
      [EvLookupEnv ''TCPV4TO6_DESTINATION_ADDR'', EvListeners])"
    using e(2) s(1) by (simp add: Run_def) (simp add: ToAddrEnvName_def world_defs)
  have q: "EvAccept \<in> set (snd (Run world_quiet))"
    using startup_fail_fast [of world_quiet "''[::1]:8080''" "[3, 4]" "IoEOF" 3] e(3) s(2)
    by blast
  show ?thesis
    using e s r0 r1 r2 q by simp
qed

subsection \<open>C7: one connection\<close>

text \<open>
  Claim C7. \<^verbatim>\<open>handleConn\<close> dials once. When the dial fails it logs the error and closes
  the accepted connection, and does nothing else: no second dial, no copy. It always
  returns, and the task handed to the group of the accept loop always returns \<^verbatim>\<open>nil\<close>,
  whatever the dial, the copies and the closes answer.
\<close>

theorem handler_isolation:
  "length (filter is_dial (snd (handleConn w from dst))) = 1 \<and>
   (Dial w ''tcp6'' dst from = Inl e \<longrightarrow>
      handleConn w from dst =
        (Done (),
         [EvDial ''tcp6'' dst,
          EvLog ''couldn't connect to dstAddr. closing accepted connection'' e,
          EvClose from] @
         (case Close w from of
            None \<Rightarrow> []
          | Some e' \<Rightarrow> [EvLog ''couldn't close accepted connection'' e']))) \<and>
   fst (handleConn w from dst) = Done () \<and>
   fst (handler_task w dst from) = Done None \<and>
   (\<forall>t \<in> set (snd (snd (handleListener w dst l))). fst t = Done None)"
proof (intro conjI impI)
  show "length (filter is_dial (snd (handleConn w from dst))) = 1"
    by (simp add: handleConn_dials)
  show "handleConn w from dst =
        (Done (),
         [EvDial ''tcp6'' dst,
          EvLog ''couldn't connect to dstAddr. closing accepted connection'' e,
          EvClose from] @
         (case Close w from of
            None \<Rightarrow> []
          | Some e' \<Rightarrow> [EvLog ''couldn't close accepted connection'' e']))"
    if "Dial w ''tcp6'' dst from = Inl e"
    using that by (rule handleConn_dial_failed)
  show "fst (handleConn w from dst) = Done ()"
    by (rule handleConn_Done)
  show "fst (handler_task w dst from) = Done None"
    by (rule handler_task_Done)
  show "\<forall>t \<in> set (snd (snd (handleListener w dst l))). fst t = Done None"
    unfolding handleListener_def by (rule accept_loop_tasks_all)
qed

text \<open>A destination the dial cannot reach.\<close>

theorem handler_isolation_witness:
  "Dial world_v4_only ''tcp6'' ''192.0.2.1:80'' 10 = Inl (Foreign ''no suitable address found'') \<and>
   handleConn world_v4_only 10 ''192.0.2.1:80'' =
     (Done (),
      [EvDial ''tcp6'' ''192.0.2.1:80'',
       EvLog ''couldn't connect to dstAddr. closing accepted connection''
         (Foreign ''no suitable address found''),
       EvClose 10]) \<and>
   fst (handler_task world_v4_only ''192.0.2.1:80'' 10) = Done None \<and>
   map fst (snd (snd (handleListener world_v4_only ''192.0.2.1:80'' 3))) = [Done None, Done None]"
proof -
  have d: "Dial world_v4_only ''tcp6'' ''192.0.2.1:80'' 10 = Inl (Foreign ''no suitable address found'')"
    by (simp add: world_defs)
  have c: "Close world_v4_only 10 = None"
    by (simp add: world_defs)
  have a: "Accept world_v4_only 3 =
             [Inr 10, Inr 20, Inl (Wrapf ''accept tcp [::]:80: '' NetErrClosed '''')]"
    by (simp add: world_defs)
  show ?thesis
    using handler_isolation [of world_v4_only 10 "''192.0.2.1:80''"
            "Foreign ''no suitable address found''" 3] d c a
    by (simp add: handleListener_def handler_task_Done)
qed

subsection \<open>C9: the network of the dial\<close>

text \<open>
  Claim C9. The one dial of \<^verbatim>\<open>handleConn\<close> names the network \<^verbatim>\<open>tcp6\<close> and the given
  address. What the dialer would answer on another network has no influence on
  \<^verbatim>\<open>handleConn\<close>. So when the dial on \<^verbatim>\<open>tcp6\<close> fails, as it does for a destination
  that can be reached on \<^verbatim>\<open>tcp4\<close> only, the accepted connection is closed and no copy
  is made.
\<close>

theorem dial_uses_tcp6:
  "filter is_dial (snd (handleConn w from dst)) = [EvDial ''tcp6'' dst] \<and>
   (d ''tcp6'' = Dial w ''tcp6'' \<longrightarrow>
      handleConn (w\<lparr>Dial := d\<rparr>) from dst = handleConn w from dst) \<and>
   (Dial w ''tcp6'' dst from = Inl e \<longrightarrow>
      EvClose from \<in> set (snd (handleConn w from dst)) \<and>
      filter is_copy (snd (handleConn w from dst)) = [])"
proof (intro conjI impI)
  show "filter is_dial (snd (handleConn w from dst)) = [EvDial ''tcp6'' dst]"
    by (rule handleConn_dials)
  show "handleConn (w\<lparr>Dial := d\<rparr>) from dst = handleConn w from dst"
    if "d ''tcp6'' = Dial w ''tcp6''"
    using that by (rule handleConn_Dial_update)
  show "EvClose from \<in> set (snd (handleConn w from dst))"
    if "Dial w ''tcp6'' dst from = Inl e"
    using that by (rule close_after_failed_dial)
  show "filter is_copy (snd (handleConn w from dst)) = []"
    if "Dial w ''tcp6'' dst from = Inl e"
    using that by (rule copy_after_failed_dial)
qed

text \<open>A dialer that reaches the destination on \<^verbatim>\<open>tcp4\<close> and not on \<^verbatim>\<open>tcp6\<close>.\<close>

theorem dial_uses_tcp6_witness:
  "Dial world_v4_only ''tcp4'' ''192.0.2.1:80'' 10 = Inr 11 \<and>
   Dial world_v4_only ''tcp6'' ''192.0.2.1:80'' 10 = Inl (Foreign ''no suitable address found'') \<and>
   filter is_dial (snd (handleConn world_v4_only 10 ''192.0.2.1:80'')) =
     [EvDial ''tcp6'' ''192.0.2.1:80''] \<and>
   EvClose 10 \<in> set (snd (handleConn world_v4_only 10 ''192.0.2.1:80'')) \<and>
   filter is_copy (snd (handleConn world_v4_only 10 ''192.0.2.1:80'')) = [] \<and>
   handleConn (world_v4_only\<lparr>Dial := Dial world_v4_only\<rparr>) 10 ''192.0.2.1:80'' =
     handleConn world_v4_only 10 ''192.0.2.1:80''"
proof -
  have d4: "Dial world_v4_only ''tcp4'' ''192.0.2.1:80'' 10 = Inr 11"
    by (simp add: world_defs)
  have d6: "Dial world_v4_only ''tcp6'' ''192.0.2.1:80'' 10 = Inl (Foreign ''no suitable address found'')"
    by (simp add: world_defs)
  show ?thesis
    using dial_uses_tcp6 [of world_v4_only 10 "''192.0.2.1:80''" "Dial world_v4_only"
            "Foreign ''no suitable address found''"] d4 d6
    by simp
qed

subsection \<open>C10: the order of the checks at startup\<close>

text \<open>
  Claim C10. When the variable of the destination is unset, \<^verbatim>\<open>Run\<close> returns
  \<^verbatim>\<open>errEnvMissing\<close>, wrapped with the name of the variable, whatever sockets were passed
  in, and \<^verbatim>\<open>activation.Listeners\<close> is not called.
\<close>

theorem env_checked_first:
  "LookupEnv w ToAddrEnvName = None \<Longrightarrow>
     Run w = (Done (Some (Wrapf '''' ErrEnvMissing '': TCPV4TO6_DESTINATION_ADDR'')),
              [EvLookupEnv ''TCPV4TO6_DESTINATION_ADDR'']) \<and>
     EvListeners \<notin> set (snd (Run w)) \<and>
     (\<exists>e. fst (Run w) = Done (Some e) \<and> errors_Is e ErrEnvMissing \<and>
          \<not> errors_Is e ErrUnexpectedSocketAmount \<and>
          Error e = ''environment variable is not set: TCPV4TO6_DESTINATION_ADDR'')"
proof -
  assume "LookupEnv w ToAddrEnvName = None"
  then have r: "Run w = (Done (Some (Wrapf '''' ErrEnvMissing '': TCPV4TO6_DESTINATION_ADDR'')),
              [EvLookupEnv ''TCPV4TO6_DESTINATION_ADDR''])"
    by (simp add: Run_def) (simp add: ToAddrEnvName_def)
  show ?thesis unfolding r by simp
qed

text \<open>No variable and no socket: the error is the one of the variable.\<close>

theorem env_checked_first_witness:
  "LookupEnv world_no_env ToAddrEnvName = None \<and>
   Listeners world_no_env = Inr [] \<and>
   Run world_no_env =
     (Done (Some (Wrapf '''' ErrEnvMissing '': TCPV4TO6_DESTINATION_ADDR'')),
      [EvLookupEnv ''TCPV4TO6_DESTINATION_ADDR'']) \<and>
   EvListeners \<notin> set (snd (Run world_no_env))"
proof -
  have e: "LookupEnv world_no_env ToAddrEnvName = None"
    by (simp add: world_defs)
  have s: "Listeners world_no_env = Inr []"
    by (simp add: world_defs)
  show ?thesis
    using env_checked_first [OF e] e s by simp
qed

end
